theory Spec2Isabelle
  imports Main "HOL-Library.Word"
begin

section \<open>Python values and exceptions\<close>

text \<open>
  The topic list handled by \<^verbatim>\<open>PaperAnalyzer\<close> is whatever \<^verbatim>\<open>json.loads\<close> returned:
  nested lists and dicts with string keys. A dict is an association list in insertion
  order (keys distinct); a string is a list of characters. JSON numbers with a
  fraction or an exponent (Python floats) are not part of the model.
\<close>

datatype pyval =
    PNone
  | PBool bool
  | PInt int
  | PStr string
  | PList "pyval list"
  | PDict "(string \<times> pyval) list"

text \<open>
  Exceptions are values. \<open>External\<close> stands for an exception raised inside a library
  collaborator (requests, ElementTree, json, PyPDF2, openai), tagged with its name.
\<close>

datatype py_error =
    KeyError string
  | TypeError
  | AttributeError
  | IndexError
  | ValueError string
  | External string

text \<open>\<^verbatim>\<open>v[k]\<close> with a string key: only a dict can be subscripted by a string.\<close>

fun subscript :: "pyval \<Rightarrow> string \<Rightarrow> py_error + pyval" where
  "subscript (PDict d) k = (case map_of d k of None \<Rightarrow> Inl (KeyError k) | Some v \<Rightarrow> Inr v)"
| "subscript _ k = Inl TypeError"

text \<open>\<^verbatim>\<open>v.get(k, default)\<close>: an attribute of dicts only.\<close>

fun dict_get :: "pyval \<Rightarrow> string \<Rightarrow> pyval \<Rightarrow> py_error + pyval" where
  "dict_get (PDict d) k dflt = Inr (case map_of d k of None \<Rightarrow> dflt | Some v \<Rightarrow> v)"
| "dict_get _ k dflt = Inl AttributeError"

text \<open>
  \<^verbatim>\<open>for x in v\<close>: a list yields its elements, a string its characters, a dict its
  keys; nothing else is iterable.
\<close>

fun py_iter :: "pyval \<Rightarrow> py_error + pyval list" where
  "py_iter (PList xs) = Inr xs"
| "py_iter (PStr s) = Inr (map (\<lambda>c. PStr [c]) s)"
| "py_iter (PDict d) = Inr (map (\<lambda>kv. PStr (fst kv)) d)"
| "py_iter _ = Inl TypeError"

text \<open>\<^verbatim>\<open>v * 2\<close>: numbers are doubled, sequences repeated, \<^verbatim>\<open>None\<close> and dicts raise.\<close>

fun py_times2 :: "pyval \<Rightarrow> py_error + pyval" where
  "py_times2 (PInt i) = Inr (PInt (i * 2))"
| "py_times2 (PBool b) = Inr (PInt ((if b then 1 else 0) * 2))"
| "py_times2 (PStr s) = Inr (PStr (s @ s))"
| "py_times2 (PList xs) = Inr (PList (xs @ xs))"
| "py_times2 PNone = Inl TypeError"
| "py_times2 (PDict d) = Inl TypeError"

text \<open>
  \<^verbatim>\<open>f"{v}"\<close> inserts \<^verbatim>\<open>str(v)\<close>, which is \<open>v\<close> itself for a string. For the other
  values the builtin \<^verbatim>\<open>str\<close> is a parameter.
\<close>

definition format_value :: "(pyval \<Rightarrow> string) \<Rightarrow> pyval \<Rightarrow> string" where
  "format_value str v = (case v of PStr s \<Rightarrow> s | _ \<Rightarrow> str v)"

section \<open>Graph assembly: \<^verbatim>\<open>PaperAnalyzer.create_graph_data\<close>\<close>

record node =
  node_id :: string
  node_name :: pyval
  node_val :: pyval
  node_group :: string

record link =
  link_source :: string
  link_target :: string
  link_value :: pyval

record graph =
  nodes :: "node list"
  links :: "link list"

text \<open>
  The inner loop over \<^verbatim>\<open>topic.get('subtopics', [])\<close>. \<open>ns\<close> and \<open>ls\<close> are the lists
  \<^verbatim>\<open>nodes\<close> and \<^verbatim>\<open>links\<close> the source appends to. Both dict displays are evaluated
  before their \<^verbatim>\<open>append\<close>, so a failing lookup leaves the function before anything
  of this subtopic is added.
\<close>

fun subtopic_loop ::
  "(pyval \<Rightarrow> string) \<Rightarrow> string \<Rightarrow> pyval list \<Rightarrow> node list \<Rightarrow> link list
    \<Rightarrow> py_error + (node list \<times> link list)" where
  "subtopic_loop str main_topic_id [] ns ls = Inr (ns, ls)"
| "subtopic_loop str main_topic_id (subtopic # rest) ns ls =
    (case subscript subtopic ''topic'' of
       Inl e \<Rightarrow> Inl e
     | Inr nm \<Rightarrow>
        (let subtopic_id = ''subtopic_'' @ main_topic_id @ ''_'' @ format_value str nm in
         case subscript subtopic ''importance'' of
           Inl e \<Rightarrow> Inl e
         | Inr imp \<Rightarrow>
             subtopic_loop str main_topic_id rest
               (ns @ [\<lparr>node_id = subtopic_id, node_name = nm, node_val = imp,
                        node_group = ''subtopic''\<rparr>])
               (ls @ [\<lparr>link_source = main_topic_id, link_target = subtopic_id,
                        link_value = imp\<rparr>])))"

text \<open>The outer loop \<^verbatim>\<open>for topic in topics\<close>.\<close>

fun topic_loop ::
  "(pyval \<Rightarrow> string) \<Rightarrow> pyval list \<Rightarrow> node list \<Rightarrow> link list
    \<Rightarrow> py_error + (node list \<times> link list)" where
  "topic_loop str [] ns ls = Inr (ns, ls)"
| "topic_loop str (topic # rest) ns ls =
    (case subscript topic ''topic'' of
       Inl e \<Rightarrow> Inl e
     | Inr nm \<Rightarrow>
        (let main_topic_id = ''topic_'' @ format_value str nm in
         case subscript topic ''importance'' of
           Inl e \<Rightarrow> Inl e
         | Inr imp \<Rightarrow>
            (case py_times2 imp of
               Inl e \<Rightarrow> Inl e
             | Inr v \<Rightarrow>
                (case dict_get topic ''subtopics'' (PList []) of
                   Inl e \<Rightarrow> Inl e
                 | Inr subs \<Rightarrow>
                    (case py_iter subs of
                       Inl e \<Rightarrow> Inl e
                     | Inr items \<Rightarrow>
                        (case subtopic_loop str main_topic_id items
                                (ns @ [\<lparr>node_id = main_topic_id, node_name = nm, node_val = v,
                                         node_group = ''topic''\<rparr>])
                                (ls @ [\<lparr>link_source = ''main'', link_target = main_topic_id,
                                         link_value = imp\<rparr>]) of
                           Inl e \<Rightarrow> Inl e
                         | Inr (ns', ls') \<Rightarrow> topic_loop str rest ns' ls'))))))"

text \<open>
  The \<^verbatim>\<open>try\<close> block of \<^verbatim>\<open>create_graph_data\<close>; its handler logs and re-raises, so an
  error passes through unchanged. The title is a string and \<open>topics\<close> a list, as the
  caller passes them.
\<close>

definition create_graph_data ::
  "(pyval \<Rightarrow> string) \<Rightarrow> string \<Rightarrow> pyval list \<Rightarrow> 'p \<Rightarrow> py_error + (graph \<times> 'p)" where
  "create_graph_data str main_paper_title topics related_papers =
    (let short_title =
           (if length main_paper_title > 50 then take 50 main_paper_title @ ''...''
            else main_paper_title)
     in case topic_loop str topics
               [\<lparr>node_id = ''main'', node_name = PStr short_title, node_val = PInt 20,
                  node_group = ''main''\<rparr>] [] of
          Inl e \<Rightarrow> Inl e
        | Inr (ns, ls) \<Rightarrow> Inr (\<lparr>nodes = ns, links = ls\<rparr>, related_papers))"

section \<open>Strings and XML elements\<close>

text \<open>
  Whitespace as \<^verbatim>\<open>str.isspace\<close> sees it, for the characters a \<^typ>\<open>char\<close> holds
  (code points below 256).
\<close>

definition is_space :: "char \<Rightarrow> bool" where
  "is_space c = ((of_char c :: nat) \<in> set [9, 10, 11, 12, 13, 28, 29, 30, 31, 32, 133, 160])"

definition py_strip :: "string \<Rightarrow> string" where
  "py_strip s = rev (dropWhile is_space (rev (dropWhile is_space s)))"

text \<open>\<^verbatim>\<open>s.split(sep)\<close> for a one-character separator: never an empty list.\<close>

fun py_split :: "char \<Rightarrow> string \<Rightarrow> string list" where
  "py_split sep [] = [[]]"
| "py_split sep (c # cs) =
    (if c = sep then [] # py_split sep cs
     else (case py_split sep cs of [] \<Rightarrow> [[c]] | w # ws \<Rightarrow> (c # w) # ws))"

text \<open>\<^verbatim>\<open>xs[0]\<close> and \<^verbatim>\<open>xs[-1]\<close>.\<close>

fun first_item :: "'a list \<Rightarrow> py_error + 'a" where
  "first_item [] = Inl IndexError"
| "first_item (x # xs) = Inr x"

fun last_item :: "'a list \<Rightarrow> py_error + 'a" where
  "last_item [] = Inl IndexError"
| "last_item [x] = Inr x"
| "last_item (x # y # ys) = last_item (y # ys)"

definition endswith :: "string \<Rightarrow> string \<Rightarrow> bool" where
  "endswith s suf = (length suf \<le> length s \<and> drop (length s - length suf) s = suf)"

text \<open>
  An ElementTree element: its tag (with the namespace in braces), its text
  (\<^verbatim>\<open>None\<close> when the element is empty) and its child elements.
\<close>

datatype xml = Element (tag: string) (elem_text: "string option") (children: "xml list")

definition atom :: "string \<Rightarrow> string" where
  "atom name = ''{http://www.w3.org/2005/Atom}'' @ name"

text \<open>\<^verbatim>\<open>elem.find('atom:x', ns)\<close>: the first child with that tag, or \<^verbatim>\<open>None\<close>.\<close>

definition find_child :: "string \<Rightarrow> xml \<Rightarrow> xml option" where
  "find_child tg e = List.find (\<lambda>c. tag c = tg) (children e)"

text \<open>\<^verbatim>\<open>elem.findall('atom:x', ns)\<close>: the children with that tag.\<close>

definition findall_children :: "string \<Rightarrow> xml \<Rightarrow> xml list" where
  "findall_children tg e = filter (\<lambda>c. tag c = tg) (children e)"

text \<open>
  \<^verbatim>\<open>root.findall('.//atom:x', ns)\<close>: the elements below the root with that tag, in
  document order.
\<close>

fun descendants :: "xml \<Rightarrow> xml list" where
  "descendants (Element t x cs) = concat (map (\<lambda>c. c # descendants c) cs)"

definition findall_descendants :: "string \<Rightarrow> xml \<Rightarrow> xml list" where
  "findall_descendants tg root = filter (\<lambda>e. tag e = tg) (descendants root)"

section \<open>Related-work search: \<^verbatim>\<open>PaperAnalyzer.find_related_papers\<close>\<close>

record paper =
  paper_id :: string
  paper_title :: string
  paper_summary :: string
  paper_published :: string
  paper_authors :: "string list"
  paper_topic :: string

record response =
  status_code :: int
  resp_text :: string

text \<open>
  The collaborators of the search: \<^verbatim>\<open>urllib.parse.quote\<close> on a string,
  \<^verbatim>\<open>requests.get\<close> with its 10 second timeout (the answer to the request made for
  the query at a given position of the query list: a response, or the exception
  raised), and \<^verbatim>\<open>ET.fromstring\<close>.
\<close>

record provider =
  quote :: "string \<Rightarrow> string"
  requests_get :: "nat \<Rightarrow> string \<Rightarrow> py_error + response"
  fromstring :: "string \<Rightarrow> py_error + xml"

text \<open>\<^verbatim>\<open>f(elem.text) if elem is not None else sentinel\<close>; a method of \<^verbatim>\<open>None\<close> raises.\<close>

fun field_or :: "xml option \<Rightarrow> (string \<Rightarrow> py_error + string) \<Rightarrow> string \<Rightarrow> py_error + string" where
  "field_or None f sentinel = Inr sentinel"
| "field_or (Some el) f sentinel =
    (case elem_text el of None \<Rightarrow> Inl AttributeError | Some t \<Rightarrow> f t)"

fun authors_loop :: "xml list \<Rightarrow> string list \<Rightarrow> py_error + string list" where
  "authors_loop [] authors = Inr authors"
| "authors_loop (author # rest) authors =
    (case find_child (atom ''name'') author of
       None \<Rightarrow> authors_loop rest authors
     | Some name_elem \<Rightarrow>
        (case elem_text name_elem of
           None \<Rightarrow> Inl AttributeError
         | Some t \<Rightarrow> authors_loop rest (authors @ [py_strip t])))"

text \<open>The body of the inner \<^verbatim>\<open>try\<close>: one provider entry to one record.\<close>

definition parse_entry :: "xml \<Rightarrow> string \<Rightarrow> py_error + paper" where
  "parse_entry entry topic_name =
    (case field_or (find_child (atom ''id'') entry)
            (\<lambda>t. last_item (py_split CHR ''/'' t)) ''id not found'' of
       Inl e \<Rightarrow> Inl e
     | Inr pid \<Rightarrow>
    (case field_or (find_child (atom ''title'') entry)
            (\<lambda>t. Inr (py_strip t)) ''title not found'' of
       Inl e \<Rightarrow> Inl e
     | Inr ptitle \<Rightarrow>
    (case field_or (find_child (atom ''summary'') entry)
            (\<lambda>t. Inr (py_strip t)) ''no abstract available'' of
       Inl e \<Rightarrow> Inl e
     | Inr psummary \<Rightarrow>
    (case field_or (find_child (atom ''published'') entry)
            (\<lambda>t. first_item (py_split CHR ''T'' t)) ''date not available'' of
       Inl e \<Rightarrow> Inl e
     | Inr ppublished \<Rightarrow>
    (case authors_loop (findall_children (atom ''author'') entry) [] of
       Inl e \<Rightarrow> Inl e
     | Inr pauthors \<Rightarrow>
         Inr \<lparr>paper_id = pid, paper_title = ptitle, paper_summary = psummary,
               paper_published = ppublished, paper_authors = pauthors,
               paper_topic = topic_name\<rparr>)))))"

text \<open>
  \<^verbatim>\<open>for entry in entries\<close>: the handler of the inner \<^verbatim>\<open>try\<close> logs and continues, so
  a failing entry adds nothing.
\<close>

fun entries_loop :: "xml list \<Rightarrow> string \<Rightarrow> paper list \<Rightarrow> paper list" where
  "entries_loop [] topic_name related_papers = related_papers"
| "entries_loop (entry # rest) topic_name related_papers =
    (case parse_entry entry topic_name of
       Inl e \<Rightarrow> entries_loop rest topic_name related_papers
     | Inr p \<Rightarrow> entries_loop rest topic_name (related_papers @ [p]))"

definition query_url :: "provider \<Rightarrow> string \<Rightarrow> string" where
  "query_url env topic_name =
     ''http://export.arxiv.org/api/query'' @ ''?search_query=all:'' @ quote env topic_name
       @ ''&start=0&max_results=3''"

text \<open>
  One turn of \<^verbatim>\<open>for topic_name in all_topics\<close>, for the query at position \<open>i\<close>. Every
  statement that can raise here stands before the loop over the entries, so the
  handler of the outer \<^verbatim>\<open>try\<close> is reached with \<^verbatim>\<open>related_papers\<close> as it was;
  \<^verbatim>\<open>quote\<close> raises \<^verbatim>\<open>TypeError\<close> for a name that is not a string.
\<close>

definition search_topic :: "provider \<Rightarrow> nat \<Rightarrow> pyval \<Rightarrow> paper list \<Rightarrow> paper list" where
  "search_topic env i topic_name related_papers =
    (case topic_name of
       PStr s \<Rightarrow>
        (case requests_get env i (query_url env s) of
           Inl e \<Rightarrow> related_papers
         | Inr response \<Rightarrow>
             if status_code response = 200 then
               (case fromstring env (resp_text response) of
                  Inl e \<Rightarrow> related_papers
                | Inr root \<Rightarrow>
                    entries_loop (findall_descendants (atom ''entry'') root) s related_papers)
             else related_papers)
     | _ \<Rightarrow> related_papers)"

fun search_loop :: "provider \<Rightarrow> nat \<Rightarrow> pyval list \<Rightarrow> paper list \<Rightarrow> paper list" where
  "search_loop env i [] related_papers = related_papers"
| "search_loop env i (topic_name # rest) related_papers =
    search_loop env (Suc i) rest (search_topic env i topic_name related_papers)"

text \<open>The comprehension \<^verbatim>\<open>[x["topic"] for x in xs]\<close>.\<close>

fun topic_names :: "pyval list \<Rightarrow> py_error + pyval list" where
  "topic_names [] = Inr []"
| "topic_names (x # xs) =
    (case subscript x ''topic'' of
       Inl e \<Rightarrow> Inl e
     | Inr n \<Rightarrow> (case topic_names xs of Inl e \<Rightarrow> Inl e | Inr ns \<Rightarrow> Inr (n # ns)))"

text \<open>\<^verbatim>\<open>for topic in topics: all_topics.extend([...])\<close>.\<close>

fun extend_subtopics :: "pyval list \<Rightarrow> pyval list \<Rightarrow> py_error + pyval list" where
  "extend_subtopics [] all_topics = Inr all_topics"
| "extend_subtopics (topic # rest) all_topics =
    (case dict_get topic ''subtopics'' (PList []) of
       Inl e \<Rightarrow> Inl e
     | Inr subs \<Rightarrow>
        (case py_iter subs of
           Inl e \<Rightarrow> Inl e
         | Inr items \<Rightarrow>
            (case topic_names items of
               Inl e \<Rightarrow> Inl e
             | Inr names \<Rightarrow> extend_subtopics rest (all_topics @ names))))"

text \<open>The query list: what \<^verbatim>\<open>all_topics\<close> holds when the search loop starts.\<close>

definition all_topics :: "pyval list \<Rightarrow> py_error + pyval list" where
  "all_topics topics =
    (case topic_names topics of
       Inl e \<Rightarrow> Inl e
     | Inr names \<Rightarrow> extend_subtopics topics names)"

text \<open>The flattening is outside every \<^verbatim>\<open>try\<close>: an error there leaves the function.\<close>

definition find_related_papers :: "provider \<Rightarrow> pyval list \<Rightarrow> py_error + paper list" where
  "find_related_papers env topics =
    (case all_topics topics of
       Inl e \<Rightarrow> Inl e
     | Inr queries \<Rightarrow> Inr (search_loop env 0 queries []))"

section \<open>Topic extraction: \<^verbatim>\<open>PaperAnalyzer.extract_topics\<close>\<close>

text \<open>
  The collaborators: the chat completion (from the truncated text to the content of the
  first choice, which may be \<^verbatim>\<open>None\<close>, or the exception raised) and \<^verbatim>\<open>json.loads\<close>.
\<close>

record oracle_env =
  chat_completion :: "string \<Rightarrow> py_error + string option"
  json_loads :: "string \<Rightarrow> py_error + pyval"

definition extract_topics :: "oracle_env \<Rightarrow> string \<Rightarrow> py_error + pyval list" where
  "extract_topics env paper_text =
    (let truncated_text = take 4000 paper_text in
     case chat_completion env truncated_text of
       Inl e \<Rightarrow> Inl e
     | Inr content \<Rightarrow>
        (case content of
           None \<Rightarrow> Inl AttributeError
         | Some result \<Rightarrow>
            (case json_loads env (py_strip result) of
               Inl e \<Rightarrow> Inl e
             | Inr topics \<Rightarrow>
                (case topics of
                   PList ts \<Rightarrow> Inr ts
                 | _ \<Rightarrow> Inl (ValueError ''openai did not return a list of topics'')))))"

section \<open>Text extraction: \<^verbatim>\<open>PaperAnalyzer.extract_text_from_pdf\<close>\<close>

text \<open>
  \<^verbatim>\<open>PyPDF2.PdfReader\<close> is a parameter: from the bytes to the pages, each page being
  what its \<^verbatim>\<open>extract_text()\<close> returns or raises.
\<close>

fun pages_loop :: "(py_error + string) list \<Rightarrow> string \<Rightarrow> string" where
  "pages_loop [] acc = acc"
| "pages_loop (page # rest) acc =
    (case page of
       Inl e \<Rightarrow> pages_loop rest acc
     | Inr page_text \<Rightarrow> pages_loop rest (acc @ page_text))"

definition extract_text_from_pdf ::
  "(8 word list \<Rightarrow> py_error + (py_error + string) list) \<Rightarrow> 8 word list \<Rightarrow> py_error + string" where
  "extract_text_from_pdf reader pdf_file =
    (case reader pdf_file of
       Inl e \<Rightarrow> Inl e
     | Inr pages \<Rightarrow>
        (let max_pages = min (length pages) 10;
             extracted = pages_loop (take max_pages pages) []
         in if py_strip extracted = []
            then Inl (ValueError ''no text could be extracted from the pdf'')
            else Inr extracted))"

section \<open>The endpoint: \<^verbatim>\<open>analyze_paper\<close> of \<^verbatim>\<open>main.py\<close>\<close>

record upload =
  filename :: string
  contents :: "8 word list"

text \<open>What a statement of the endpoint raises: an \<^verbatim>\<open>HTTPException\<close> or another exception.\<close>

datatype raised = HTTPException int string | Raised py_error

text \<open>
  The collaborators of the endpoint; \<open>exc_str\<close> is \<^verbatim>\<open>str(e)\<close> on an exception and
  \<open>py_str\<close> the builtin \<^verbatim>\<open>str\<close> on a value.
\<close>

record services =
  pdf_reader :: "8 word list \<Rightarrow> py_error + (py_error + string) list"
  topic_oracle :: oracle_env
  search_provider :: provider
  py_str :: "pyval \<Rightarrow> string"
  exc_str :: "raised \<Rightarrow> string"

text \<open>The body of the \<^verbatim>\<open>try\<close> block.\<close>

definition analyze_body :: "services \<Rightarrow> upload \<Rightarrow> raised + (graph \<times> paper list)" where
  "analyze_body sv file =
    (if length (contents file) > 10 * 1024 * 1024
     then Inl (HTTPException 400 ''File too large. Please upload a smaller PDF'')
     else
      (case extract_text_from_pdf (pdf_reader sv) (contents file) of
         Inl e \<Rightarrow> Inl (Raised e)
       | Inr extracted \<Rightarrow>
          if py_strip extracted = []
          then Inl (HTTPException 400
            ''Could not extract text from PDF. Please make sure it's not scanned or corrupted'')
          else
           (case extract_topics (topic_oracle sv) extracted of
              Inl e \<Rightarrow> Inl (Raised e)
            | Inr topics \<Rightarrow>
               if topics = []
               then Inl (HTTPException 500 ''Could not extract topics from the paper'')
               else
                (case find_related_papers (search_provider sv) topics of
                   Inl e \<Rightarrow> Inl (Raised e)
                 | Inr related_papers \<Rightarrow>
                    (case create_graph_data (py_str sv) (filename file) topics related_papers of
                       Inl e \<Rightarrow> Inl (Raised e)
                     | Inr graph_data \<Rightarrow> Inr graph_data)))))"

text \<open>
  The endpoint answers with the graph data or with the status and detail of the
  \<^verbatim>\<open>HTTPException\<close> it raises. The handler \<^verbatim>\<open>except Exception as e\<close> encloses the
  whole body, and \<^verbatim>\<open>HTTPException\<close> is an \<^verbatim>\<open>Exception\<close>.
\<close>

definition analyze_paper :: "services \<Rightarrow> upload \<Rightarrow> (int \<times> string) + (graph \<times> paper list)" where
  "analyze_paper sv file =
    (if \<not> endswith (filename file) ''.pdf''
     then Inl (400, ''Only PDF files are accepted'')
     else
      (case analyze_body sv file of
         Inl e \<Rightarrow> Inl (500, exc_str sv e)
       | Inr graph_data \<Rightarrow> Inr graph_data))"

section \<open>The data model of the specification\<close>

text \<open>
  A Topic has a name (key \<^verbatim>\<open>topic\<close>, a string), an importance (key \<^verbatim>\<open>importance\<close>,
  an integer) and an ordered sequence of Subtopics (key \<^verbatim>\<open>subtopics\<close>, which may be
  absent); a Subtopic has a name and an importance. The accessors read a well-formed
  record; the range 1..10 of the importance and the bounds on the number of topics
  and subtopics are left to the statements that need them.
\<close>

fun name_of :: "pyval \<Rightarrow> string" where
  "name_of (PDict d) = (case map_of d ''topic'' of Some (PStr s) \<Rightarrow> s | _ \<Rightarrow> [])"
| "name_of _ = []"

fun importance_of :: "pyval \<Rightarrow> int" where
  "importance_of (PDict d) = (case map_of d ''importance'' of Some (PInt i) \<Rightarrow> i | _ \<Rightarrow> 0)"
| "importance_of _ = 0"

fun subtopics_of :: "pyval \<Rightarrow> pyval list" where
  "subtopics_of (PDict d) = (case map_of d ''subtopics'' of Some (PList xs) \<Rightarrow> xs | _ \<Rightarrow> [])"
| "subtopics_of _ = []"

fun valid_subtopic :: "pyval \<Rightarrow> bool" where
  "valid_subtopic (PDict d) =
     (case map_of d ''topic'' of
        Some (PStr s) \<Rightarrow> (case map_of d ''importance'' of Some (PInt i) \<Rightarrow> True | _ \<Rightarrow> False)
      | _ \<Rightarrow> False)"
| "valid_subtopic _ = False"

fun valid_topic :: "pyval \<Rightarrow> bool" where
  "valid_topic (PDict d) =
     (case map_of d ''topic'' of
        Some (PStr s) \<Rightarrow>
          (case map_of d ''importance'' of
             Some (PInt i) \<Rightarrow>
               (case map_of d ''subtopics'' of
                  None \<Rightarrow> True
                | Some (PList subs) \<Rightarrow> list_all valid_subtopic subs
                | _ \<Rightarrow> False)
           | _ \<Rightarrow> False)
      | _ \<Rightarrow> False)"
| "valid_topic _ = False"

text \<open>The node ids of the specification: \<^verbatim>\<open>topic_<name>\<close> and \<^verbatim>\<open>subtopic_<parentId>_<name>\<close>.\<close>

definition topic_id :: "pyval \<Rightarrow> string" where
  "topic_id t = ''topic_'' @ name_of t"

definition subtopic_id :: "pyval \<Rightarrow> pyval \<Rightarrow> string" where
  "subtopic_id t s = ''subtopic_'' @ topic_id t @ ''_'' @ name_of s"

text \<open>
  The graph of the specification: the main node, then for each topic in input order
  its node and the nodes of its subtopics; for each topic its edge from the main node
  and the edges to its subtopics.
\<close>

definition main_node :: "string \<Rightarrow> node" where
  "main_node title =
     \<lparr>node_id = ''main'',
       node_name = PStr (if length title \<le> 50 then title else take 50 title @ ''...''),
       node_val = PInt 20, node_group = ''main''\<rparr>"

definition topic_nodes :: "pyval \<Rightarrow> node list" where
  "topic_nodes t =
     \<lparr>node_id = topic_id t, node_name = PStr (name_of t),
       node_val = PInt (importance_of t * 2), node_group = ''topic''\<rparr> #
     map (\<lambda>s. \<lparr>node_id = subtopic_id t s, node_name = PStr (name_of s),
                node_val = PInt (importance_of s), node_group = ''subtopic''\<rparr>) (subtopics_of t)"

definition topic_links :: "pyval \<Rightarrow> link list" where
  "topic_links t =
     \<lparr>link_source = ''main'', link_target = topic_id t, link_value = PInt (importance_of t)\<rparr> #
     map (\<lambda>s. \<lparr>link_source = topic_id t, link_target = subtopic_id t s,
                link_value = PInt (importance_of s)\<rparr>) (subtopics_of t)"

text \<open>
  The query list of the specification: every top-level topic name in input order, then
  every subtopic name in input order, nothing removed.
\<close>

definition flatten_queries :: "pyval list \<Rightarrow> string list" where
  "flatten_queries topics =
     map name_of topics @ concat (map (\<lambda>t. map name_of (subtopics_of t)) topics)"

text \<open>The records of the entries that parse, in the order of the entries.\<close>

definition parsed_entries :: "xml list \<Rightarrow> string \<Rightarrow> paper list" where
  "parsed_entries entries q =
     concat (map (\<lambda>entry. case parse_entry entry q of Inl e \<Rightarrow> [] | Inr p \<Rightarrow> [p]) entries)"

text \<open>
  What one query contributes: nothing when the provider call fails (an exception, a
  status other than 200, an envelope that does not parse), else its parsed entries.
\<close>

definition query_entries :: "provider \<Rightarrow> nat \<Rightarrow> string \<Rightarrow> paper list" where
  "query_entries env i q =
     (case requests_get env i (query_url env q) of
        Inl e \<Rightarrow> []
      | Inr r \<Rightarrow>
          if status_code r \<noteq> 200 then []
          else (case fromstring env (resp_text r) of
                  Inl e \<Rightarrow> []
                | Inr root \<Rightarrow> parsed_entries (findall_descendants (atom ''entry'') root) q))"

text \<open>
  An entry none of whose elements is malformed: each of the id, title, summary and
  published elements it has, and each name element of its authors, carries text.
\<close>

definition has_text :: "xml option \<Rightarrow> bool" where
  "has_text eo = (case eo of None \<Rightarrow> True | Some el \<Rightarrow> elem_text el \<noteq> None)"

definition entry_texts_present :: "xml \<Rightarrow> bool" where
  "entry_texts_present entry =
     (has_text (find_child (atom ''id'') entry) \<and>
      has_text (find_child (atom ''title'') entry) \<and>
      has_text (find_child (atom ''summary'') entry) \<and>
      has_text (find_child (atom ''published'') entry) \<and>
      list_all (\<lambda>author. has_text (find_child (atom ''name'') author))
        (findall_children (atom ''author'') entry))"

text \<open>
  Names that differ: the topic names are pairwise distinct, and so are the subtopic
  names within each topic.
\<close>

definition names_distinct :: "pyval list \<Rightarrow> bool" where
  "names_distinct topics =
     (distinct (map name_of topics) \<and>
      list_all (\<lambda>t. distinct (map name_of (subtopics_of t))) topics)"

text \<open>
  The name of each subtopic after the name of its topic and an underscore, and the ids
  of the tree in the order of its nodes.
\<close>

definition qualified_names :: "pyval list \<Rightarrow> string list" where
  "qualified_names topics =
     concat (map (\<lambda>t. map (\<lambda>s. name_of t @ ''_'' @ name_of s) (subtopics_of t)) topics)"

definition tree_ids :: "pyval list \<Rightarrow> string list" where
  "tree_ids topics = concat (map (\<lambda>t. topic_id t # map (subtopic_id t) (subtopics_of t)) topics)"

text \<open>A topic record given an empty subtopic sequence under the key \<^verbatim>\<open>subtopics\<close>.\<close>

definition with_empty_subtopics :: "(string \<times> pyval) list \<Rightarrow> pyval" where
  "with_empty_subtopics d = PDict (d @ [(''subtopics'', PList [])])"

section \<open>Example inputs\<close>

text \<open>
  A stand-in for the builtin \<^verbatim>\<open>str\<close> where every name is a string and it is never
  called.
\<close>

definition str_unused :: "pyval \<Rightarrow> string" where
  "str_unused v = []"

text \<open>A tree of five topics with two, one, no (key absent), three and no subtopics.\<close>

definition example_topics :: "pyval list" where
  "example_topics =
    [PDict [(''topic'', PStr ''neural networks''), (''importance'', PInt 9),
            (''subtopics'', PList
               [PDict [(''topic'', PStr ''gradient descent''), (''importance'', PInt 6)],
                PDict [(''topic'', PStr ''backpropagation''), (''importance'', PInt 5)]])],
     PDict [(''topic'', PStr ''optimization''), (''importance'', PInt 8),
            (''subtopics'', PList
               [PDict [(''topic'', PStr ''convexity''), (''importance'', PInt 4)]])],
     PDict [(''topic'', PStr ''computer vision''), (''importance'', PInt 7)],
     PDict [(''topic'', PStr ''datasets''), (''importance'', PInt 3),
            (''subtopics'', PList
               [PDict [(''topic'', PStr ''imagenet''), (''importance'', PInt 3)],
                PDict [(''topic'', PStr ''cifar''), (''importance'', PInt 2)],
                PDict [(''topic'', PStr ''mnist''), (''importance'', PInt 1)]])],
     PDict [(''topic'', PStr ''evaluation''), (''importance'', PInt 2),
            (''subtopics'', PList [])]]"

text \<open>
  Two topics \<^verbatim>\<open>x\<close> and \<^verbatim>\<open>x_y\<close> with the subtopics \<^verbatim>\<open>y_z\<close> and \<^verbatim>\<open>z\<close>, and the
  graph built from them for the title \<^verbatim>\<open>p.pdf\<close>.
\<close>

definition colliding_topics :: "pyval list" where
  "colliding_topics =
    [PDict [(''topic'', PStr ''x''), (''importance'', PInt 5),
            (''subtopics'', PList [PDict [(''topic'', PStr ''y_z''), (''importance'', PInt 3)]])],
     PDict [(''topic'', PStr ''x_y''), (''importance'', PInt 4),
            (''subtopics'', PList [PDict [(''topic'', PStr ''z''), (''importance'', PInt 2)]])]]"

definition colliding_graph :: graph where
  "colliding_graph =
    \<lparr>nodes =
       [\<lparr>node_id = ''main'', node_name = PStr ''p.pdf'', node_val = PInt 20, node_group = ''main''\<rparr>,
        \<lparr>node_id = ''topic_x'', node_name = PStr ''x'', node_val = PInt 10, node_group = ''topic''\<rparr>,
        \<lparr>node_id = ''subtopic_topic_x_y_z'', node_name = PStr ''y_z'', node_val = PInt 3,
          node_group = ''subtopic''\<rparr>,
        \<lparr>node_id = ''topic_x_y'', node_name = PStr ''x_y'', node_val = PInt 8, node_group = ''topic''\<rparr>,
        \<lparr>node_id = ''subtopic_topic_x_y_z'', node_name = PStr ''z'', node_val = PInt 2,
          node_group = ''subtopic''\<rparr>],
     links =
       [\<lparr>link_source = ''main'', link_target = ''topic_x'', link_value = PInt 5\<rparr>,
        \<lparr>link_source = ''topic_x'', link_target = ''subtopic_topic_x_y_z'', link_value = PInt 3\<rparr>,
        \<lparr>link_source = ''main'', link_target = ''topic_x_y'', link_value = PInt 4\<rparr>,
        \<lparr>link_source = ''topic_x_y'', link_target = ''subtopic_topic_x_y_z'', link_value = PInt 2\<rparr>]\<rparr>"

text \<open>A file name of 64 characters.\<close>

definition long_title :: string where
  "long_title = replicate 60 CHR ''a'' @ ''.pdf''"

text \<open>
  A provider entry with an id, a publication date and one author, but no title and no
  summary; a feed holding it and an entry whose title element is empty; a provider
  whose call for the query at position 1 times out and which answers every other
  call with that feed; a tree that flattens to the three queries \<^verbatim>\<open>a\<close>, \<^verbatim>\<open>b\<close>, \<^verbatim>\<open>c\<close>; and
  the record the first entry parses to.
\<close>

definition partial_entry :: xml where
  "partial_entry =
     Element (atom ''entry'') None
       [Element (atom ''id'') (Some ''http://arxiv.org/abs/2101.00001v1'') [],
        Element (atom ''published'') (Some ''2021-01-03T10:00:00Z'') [],
        Element (atom ''author'') None [Element (atom ''name'') (Some '' A. Author '') []]]"

definition example_feed :: xml where
  "example_feed =
     Element (atom ''feed'') None
       [Element (atom ''title'') (Some ''ArXiv Query'') [],
        partial_entry,
        Element (atom ''entry'') None [Element (atom ''title'') None []]]"

definition example_provider :: provider where
  "example_provider =
     \<lparr>quote = (\<lambda>s. s),
       requests_get = (\<lambda>i url. if i = 1 then Inl (External ''Timeout'')
                               else Inr \<lparr>status_code = 200, resp_text = ''<feed/>''\<rparr>),
       fromstring = (\<lambda>s. Inr example_feed)\<rparr>"

definition three_queries :: "pyval list" where
  "three_queries =
    [PDict [(''topic'', PStr ''a''), (''importance'', PInt 9),
            (''subtopics'', PList
               [PDict [(''topic'', PStr ''b''), (''importance'', PInt 6)],
                PDict [(''topic'', PStr ''c''), (''importance'', PInt 5)]])]]"

definition example_paper :: "string \<Rightarrow> paper" where
  "example_paper q =
     \<lparr>paper_id = ''2101.00001v1'', paper_title = ''title not found'',
       paper_summary = ''no abstract available'', paper_published = ''2021-01-03'',
       paper_authors = [''A. Author''], paper_topic = q\<rparr>"

text \<open>A topic record without the key \<^verbatim>\<open>subtopics\<close>.\<close>

definition bare_topic :: "(string \<times> pyval) list" where
  "bare_topic = [(''topic'', PStr ''computer vision''), (''importance'', PInt 7)]"

text \<open>
  An oracle that answers every text with the given reply, with a \<^verbatim>\<open>json.loads\<close> that
  knows the empty object and the empty array and rejects everything else.
\<close>

definition example_oracle :: "string \<Rightarrow> oracle_env" where
  "example_oracle reply =
     \<lparr>chat_completion = (\<lambda>t. Inr (Some reply)),
       json_loads = (\<lambda>s. if s = ''{}'' then Inr (PDict [])
                          else if s = ''[]'' then Inr (PList [])
                          else Inl (External ''JSONDecodeError''))\<rparr>"

section \<open>Graph assembly on well-formed trees\<close>

text \<open>
  On a well-formed tree every lookup succeeds, and the two loops build the graph of
  the specification.
\<close>

lemma valid_subtopic_fields:
  assumes "valid_subtopic s"
  shows "subscript s ''topic'' = Inr (PStr (name_of s))"
    and "subscript s ''importance'' = Inr (PInt (importance_of s))"
  using assms by (cases s; simp split: option.splits pyval.splits)+

lemma valid_topic_fields:
  assumes "valid_topic t"
  shows "subscript t ''topic'' = Inr (PStr (name_of t))"
    and "subscript t ''importance'' = Inr (PInt (importance_of t))"
    and "\<exists>v. dict_get t ''subtopics'' (PList []) = Inr v \<and> py_iter v = Inr (subtopics_of t)"
    and "list_all valid_subtopic (subtopics_of t)"
  using assms by (cases t; simp split: option.splits pyval.splits)+

lemma subtopic_loop_valid:
  "list_all valid_subtopic subs \<Longrightarrow>
   subtopic_loop str mid subs ns ls =
     Inr (ns @ map (\<lambda>s. \<lparr>node_id = ''subtopic_'' @ mid @ ''_'' @ name_of s,
                          node_name = PStr (name_of s), node_val = PInt (importance_of s),
                          node_group = ''subtopic''\<rparr>) subs,
          ls @ map (\<lambda>s. \<lparr>link_source = mid,
                          link_target = ''subtopic_'' @ mid @ ''_'' @ name_of s,
                          link_value = PInt (importance_of s)\<rparr>) subs)"
proof (induction subs arbitrary: ns ls)
  case Nil
  show ?case by simp
next
  case (Cons s subs)
  from Cons.prems have s: "valid_subtopic s" and rest: "list_all valid_subtopic subs"
    by simp_all
  show ?case
    by (simp add: valid_subtopic_fields [OF s] Cons.IH [OF rest] format_value_def Let_def)
qed

lemma topic_loop_valid:
  "list_all valid_topic ts \<Longrightarrow>
   topic_loop str ts ns ls =
     Inr (ns @ concat (map topic_nodes ts), ls @ concat (map topic_links ts))"
proof (induction ts arbitrary: ns ls)
  case Nil
  show ?case by simp
next
  case (Cons t ts)
  from Cons.prems have t: "valid_topic t" and rest: "list_all valid_topic ts"
    by simp_all
  from valid_topic_fields(3) [OF t] obtain v where
    v: "dict_get t ''subtopics'' (PList []) = Inr v" "py_iter v = Inr (subtopics_of t)"
    by blast
  show ?case
    by (simp add: valid_topic_fields(1,2) [OF t] v format_value_def
        subtopic_loop_valid [OF valid_topic_fields(4) [OF t]] Cons.IH [OF rest]
        topic_nodes_def topic_links_def topic_id_def subtopic_id_def Let_def)
qed

lemma create_graph_data_valid:
  "list_all valid_topic topics \<Longrightarrow>
   create_graph_data str title topics rp =
     Inr (\<lparr>nodes = main_node title # concat (map topic_nodes topics),
           links = concat (map topic_links topics)\<rparr>, rp)"
  by (cases "length title \<le> 50")
     (simp_all add: create_graph_data_def topic_loop_valid main_node_def not_le [symmetric])

lemma length_topic_nodes: "length (topic_nodes t) = 1 + length (subtopics_of t)"
  by (simp add: topic_nodes_def)

lemma length_topic_links: "length (topic_links t) = 1 + length (subtopics_of t)"
  by (simp add: topic_links_def)

lemma sum_list_Suc_map: "(\<Sum>t\<leftarrow>ts. Suc (f t)) = length ts + (\<Sum>t\<leftarrow>ts. f t)"
  by (induction ts) simp_all

lemma topic_nodes_not_main: "filter (\<lambda>n. node_group n = ''main'') (topic_nodes t) = []"
  by (simp add: topic_nodes_def filter_empty_conv)

lemma concat_topic_nodes_not_main:
  "filter (\<lambda>n. node_group n = ''main'') (concat (map topic_nodes ts)) = []"
  by (induction ts) (simp_all add: topic_nodes_not_main)

text \<open>
  Claim C2. For every valid topic tree with 5 topics, each with at most 3 subtopics,
  \<open>create_graph_data\<close> returns a graph with exactly 1 + 5 + (number of subtopics)
  nodes and 5 + (number of subtopics) edges, exactly one node of which has the
  category \<^verbatim>\<open>main\<close>.
\<close>

theorem create_graph_data_counts:
  assumes "length topics = 5"
    and "list_all valid_topic topics"
    and "list_all (\<lambda>t. length (subtopics_of t) \<le> 3) topics"
  shows "\<exists>g. create_graph_data str title topics rp = Inr (g, rp) \<and>
           length (nodes g) = 1 + 5 + (\<Sum>t\<leftarrow>topics. length (subtopics_of t)) \<and>
           length (links g) = 5 + (\<Sum>t\<leftarrow>topics. length (subtopics_of t)) \<and>
           length (filter (\<lambda>n. node_group n = ''main'') (nodes g)) = 1"
proof -
  let ?g = "\<lparr>nodes = main_node title # concat (map topic_nodes topics),
             links = concat (map topic_links topics)\<rparr>"
  have run: "create_graph_data str title topics rp = Inr (?g, rp)"
    using assms(2) by (rule create_graph_data_valid)
  have n: "length (nodes ?g) = 1 + 5 + (\<Sum>t\<leftarrow>topics. length (subtopics_of t))"
    using assms(1)
    by (simp add: length_concat comp_def length_topic_nodes sum_list_Suc_map)
  have l: "length (links ?g) = 5 + (\<Sum>t\<leftarrow>topics. length (subtopics_of t))"
    using assms(1)
    by (simp add: length_concat comp_def length_topic_links sum_list_Suc_map)
  have m: "length (filter (\<lambda>n. node_group n = ''main'') (nodes ?g)) = 1"
    by (simp add: concat_topic_nodes_not_main main_node_def)
  from run n l m show ?thesis by blast
qed

theorem create_graph_data_counts_witness:
  "length example_topics = 5 \<and> list_all valid_topic example_topics \<and>
   list_all (\<lambda>t. length (subtopics_of t) \<le> 3) example_topics \<and>
   (\<exists>g. create_graph_data str_unused ''paper.pdf'' example_topics ([] :: paper list) = Inr (g, []) \<and>
        length (nodes g) = 12 \<and> length (links g) = 11 \<and>
        length (filter (\<lambda>n. node_group n = ''main'') (nodes g)) = 1)"
proof -
  have a: "length example_topics = 5"
    by (simp add: example_topics_def)
  have b: "list_all valid_topic example_topics"
    by (simp add: example_topics_def)
  have c: "list_all (\<lambda>t. length (subtopics_of t) \<le> 3) example_topics"
    by (simp add: example_topics_def)
  have s: "(\<Sum>t\<leftarrow>example_topics. length (subtopics_of t)) = 6"
    by (simp add: example_topics_def)
  from create_graph_data_counts [OF a b c, of str_unused "''paper.pdf''" "[] :: paper list"] s a b c
  show ?thesis by simp
qed

section \<open>Node ids\<close>

lemma node_ids_topic_nodes:
  "map node_id (concat (map topic_nodes ts)) = tree_ids ts"
  by (induction ts) (simp_all add: topic_nodes_def tree_ids_def comp_def)

lemma topic_id_neq_subtopic_id: "topic_id t \<noteq> subtopic_id t' s"
  by (simp add: topic_id_def subtopic_id_def)

lemma set_tree_ids:
  "set (tree_ids ts) =
     topic_id ` set ts \<union> (\<Union>t\<in>set ts. subtopic_id t ` set (subtopics_of t))"
  by (induction ts) (auto simp add: tree_ids_def)

lemma distinct_tree_ids:
  "distinct (tree_ids ts) \<longleftrightarrow>
     distinct (map topic_id ts) \<and>
     distinct (concat (map (\<lambda>t. map (subtopic_id t) (subtopics_of t)) ts))"
proof (induction ts)
  case Nil
  show ?case by (simp add: tree_ids_def)
next
  case (Cons t ts)
  have unfold: "tree_ids (t # ts) = topic_id t # map (subtopic_id t) (subtopics_of t) @ tree_ids ts"
    by (simp add: tree_ids_def)
  have sub_set: "set (concat (map (\<lambda>t. map (subtopic_id t) (subtopics_of t)) ts)) =
      (\<Union>t\<in>set ts. subtopic_id t ` set (subtopics_of t))"
    by auto
  show ?case
    unfolding unfold
    using Cons.IH topic_id_neq_subtopic_id
    apply (simp add: set_tree_ids sub_set del: set_concat)
    apply (auto simp add: topic_id_neq_subtopic_id [symmetric])
     apply blast+
    done
qed

lemma distinct_map_prefix: "distinct (map ((@) p) xs) = distinct xs"
  by (simp add: distinct_map inj_on_def)

lemma topic_ids_prefix: "map topic_id ts = map ((@) ''topic_'') (map name_of ts)"
  by (simp add: topic_id_def)

lemma subtopic_ids_prefix:
  "concat (map (\<lambda>t. map (subtopic_id t) (subtopics_of t)) ts) =
     map ((@) ''subtopic_topic_'') (qualified_names ts)"
  by (induction ts) (simp_all add: qualified_names_def subtopic_id_def topic_id_def)

lemma distinct_tree_ids_names:
  "distinct (tree_ids ts) \<longleftrightarrow> distinct (map name_of ts) \<and> distinct (qualified_names ts)"
  unfolding distinct_tree_ids topic_ids_prefix subtopic_ids_prefix distinct_map_prefix ..

lemma main_not_in_tree_ids: "''main'' \<notin> set (tree_ids ts)"
  by (auto simp add: set_tree_ids topic_id_def subtopic_id_def)

lemma underscore_split:
  assumes "CHR ''_'' \<notin> set a" and "CHR ''_'' \<notin> set a'"
    and "a @ ''_'' @ b = a' @ ''_'' @ b'"
  shows "a = a' \<and> b = b'"
proof -
  have "takeWhile (\<lambda>c. c \<noteq> CHR ''_'') (a @ ''_'' @ b) = a"
    using assms(1) by (induction a) auto
  moreover have "takeWhile (\<lambda>c. c \<noteq> CHR ''_'') (a' @ ''_'' @ b') = a'"
    using assms(2) by (induction a') auto
  ultimately have "a = a'" using assms(3) by simp
  with assms(3) show ?thesis by simp
qed

lemma distinct_qualified_names:
  assumes "distinct (map name_of ts)"
    and "list_all (\<lambda>t. CHR ''_'' \<notin> set (name_of t)) ts"
    and "list_all (\<lambda>t. distinct (map name_of (subtopics_of t))) ts"
  shows "distinct (qualified_names ts)"
  using assms
proof (induction ts)
  case Nil
  show ?case by (simp add: qualified_names_def)
next
  case (Cons t ts)
  have unfold: "qualified_names (t # ts) =
      map (\<lambda>s. name_of t @ ''_'' @ name_of s) (subtopics_of t) @ qualified_names ts"
    by (simp add: qualified_names_def)
  have own: "distinct (map (\<lambda>s. name_of t @ ''_'' @ name_of s) (subtopics_of t))"
  proof -
    have "map (\<lambda>s. name_of t @ ''_'' @ name_of s) (subtopics_of t) =
        map ((@) (name_of t @ ''_'')) (map name_of (subtopics_of t))"
      by simp
    moreover from Cons.prems(3) have "distinct (map name_of (subtopics_of t))"
      by simp
    ultimately show ?thesis
      by (simp only: distinct_map_prefix)
  qed
  have rest: "distinct (qualified_names ts)"
    using Cons by simp
  have disjoint: "set (map (\<lambda>s. name_of t @ ''_'' @ name_of s) (subtopics_of t))
      \<inter> set (qualified_names ts) = {}"
  proof (rule ccontr)
    assume "\<not> ?thesis"
    then obtain s t' s' where "t' \<in> set ts"
      and eq: "name_of t @ ''_'' @ name_of s = name_of t' @ ''_'' @ name_of s'"
      by (auto simp add: qualified_names_def)
    moreover from Cons.prems(2) \<open>t' \<in> set ts\<close>
    have "CHR ''_'' \<notin> set (name_of t)" "CHR ''_'' \<notin> set (name_of t')"
      by (simp_all add: list_all_iff)
    ultimately have "name_of t = name_of t'"
      using underscore_split by blast
    with Cons.prems(1) \<open>t' \<in> set ts\<close> show False by force
  qed
  show ?case
    unfolding unfold using own rest disjoint by simp
qed

text \<open>
  Claim C3, as stated, fails: the topics \<^verbatim>\<open>x\<close> and \<^verbatim>\<open>x_y\<close> have distinct names, each
  has a single subtopic (\<^verbatim>\<open>y_z\<close> and \<^verbatim>\<open>z\<close>), and both subtopic nodes get the id
  \<^verbatim>\<open>subtopic_topic_x_y_z\<close>.
\<close>

theorem node_ids_collide:
  "list_all valid_topic colliding_topics \<and> names_distinct colliding_topics \<and>
   create_graph_data str_unused ''p.pdf'' colliding_topics ([] :: paper list) = Inr (colliding_graph, []) \<and>
   \<not> distinct (map node_id (nodes colliding_graph))"
  by (simp add: colliding_topics_def colliding_graph_def names_distinct_def
      create_graph_data_def format_value_def Let_def)

text \<open>
  Claim C3, amended. On a well-formed tree each topic node's id is \<^verbatim>\<open>topic_<name>\<close> and
  each subtopic node's id is \<^verbatim>\<open>subtopic_<parentId>_<name>\<close>. The node ids are pairwise
  distinct exactly when the topic names are pairwise distinct and the strings
  \<^verbatim>\<open><topic name>_<subtopic name>\<close> are pairwise distinct over the whole tree; this holds
  in particular when the topic names are pairwise distinct and free of underscores and
  the subtopic names are distinct within each topic.
\<close>

theorem create_graph_data_node_ids:
  assumes "list_all valid_topic topics"
  shows "\<exists>g. create_graph_data str title topics rp = Inr (g, rp) \<and>
           map node_id (nodes g) =
             ''main'' # concat (map (\<lambda>t. topic_id t # map (subtopic_id t) (subtopics_of t)) topics) \<and>
           (distinct (map node_id (nodes g)) \<longleftrightarrow>
              distinct (map name_of topics) \<and> distinct (qualified_names topics)) \<and>
           (names_distinct topics \<and> list_all (\<lambda>t. CHR ''_'' \<notin> set (name_of t)) topics
              \<longrightarrow> distinct (map node_id (nodes g)))"
proof -
  let ?g = "\<lparr>nodes = main_node title # concat (map topic_nodes topics),
             links = concat (map topic_links topics)\<rparr>"
  have run: "create_graph_data str title topics rp = Inr (?g, rp)"
    using assms by (rule create_graph_data_valid)
  have ids: "map node_id (nodes ?g) = ''main'' # tree_ids topics"
    by (simp add: node_ids_topic_nodes main_node_def)
  have iff: "distinct (map node_id (nodes ?g)) \<longleftrightarrow>
      distinct (map name_of topics) \<and> distinct (qualified_names topics)"
    unfolding ids using main_not_in_tree_ids [of topics]
    by (simp add: distinct_tree_ids_names)
  have suff: "names_distinct topics \<and> list_all (\<lambda>t. CHR ''_'' \<notin> set (name_of t)) topics
      \<longrightarrow> distinct (map node_id (nodes ?g))"
    unfolding iff names_distinct_def
    using distinct_qualified_names [of topics] by blast
  show ?thesis
  proof (intro exI conjI)
    show "create_graph_data str title topics rp = Inr (?g, rp)" by (rule run)
    show "map node_id (nodes ?g) =
        ''main'' # concat (map (\<lambda>t. topic_id t # map (subtopic_id t) (subtopics_of t)) topics)"
      using ids by (simp only: tree_ids_def)
    show "distinct (map node_id (nodes ?g)) \<longleftrightarrow>
        distinct (map name_of topics) \<and> distinct (qualified_names topics)" by (rule iff)
    show "names_distinct topics \<and> list_all (\<lambda>t. CHR ''_'' \<notin> set (name_of t)) topics
        \<longrightarrow> distinct (map node_id (nodes ?g))" by (rule suff)
  qed
qed

theorem create_graph_data_node_ids_witness:
  "list_all valid_topic example_topics \<and> names_distinct example_topics \<and>
   list_all (\<lambda>t. CHR ''_'' \<notin> set (name_of t)) example_topics \<and>
   (\<exists>g. create_graph_data str_unused ''paper.pdf'' example_topics ([] :: paper list) = Inr (g, []) \<and>
        map node_id (nodes g) =
          [''main'', ''topic_neural networks'', ''subtopic_topic_neural networks_gradient descent'',
           ''subtopic_topic_neural networks_backpropagation'', ''topic_optimization'',
           ''subtopic_topic_optimization_convexity'', ''topic_computer vision'', ''topic_datasets'',
           ''subtopic_topic_datasets_imagenet'', ''subtopic_topic_datasets_cifar'',
           ''subtopic_topic_datasets_mnist'', ''topic_evaluation''] \<and>
        distinct (map node_id (nodes g)))"
proof -
  have a: "list_all valid_topic example_topics"
    by (simp add: example_topics_def)
  have b: "names_distinct example_topics"
    by (simp add: example_topics_def names_distinct_def)
  have c: "list_all (\<lambda>t. CHR ''_'' \<notin> set (name_of t)) example_topics"
    by (simp add: example_topics_def)
  have ids: "concat (map (\<lambda>t. topic_id t # map (subtopic_id t) (subtopics_of t)) example_topics) =
      [''topic_neural networks'', ''subtopic_topic_neural networks_gradient descent'',
       ''subtopic_topic_neural networks_backpropagation'', ''topic_optimization'',
       ''subtopic_topic_optimization_convexity'', ''topic_computer vision'', ''topic_datasets'',
       ''subtopic_topic_datasets_imagenet'', ''subtopic_topic_datasets_cifar'',
       ''subtopic_topic_datasets_mnist'', ''topic_evaluation'']"
    by (simp add: example_topics_def topic_id_def subtopic_id_def)
  from create_graph_data_node_ids [OF a, of str_unused "''paper.pdf''" "[] :: paper list"]
  obtain g where g: "create_graph_data str_unused ''paper.pdf'' example_topics ([] :: paper list) = Inr (g, [])"
    "map node_id (nodes g) =
       ''main'' # concat (map (\<lambda>t. topic_id t # map (subtopic_id t) (subtopics_of t)) example_topics)"
    "names_distinct example_topics \<and> list_all (\<lambda>t. CHR ''_'' \<notin> set (name_of t)) example_topics
       \<longrightarrow> distinct (map node_id (nodes g))"
    by (elim exE conjE) (rule that)
  from g(3) b c have d: "distinct (map node_id (nodes g))" by (rule mp [OF _ conjI])
  show ?thesis
  proof (intro conjI exI)
    show "create_graph_data str_unused ''paper.pdf'' example_topics ([] :: paper list) = Inr (g, [])"
      by (rule g(1))
    show "map node_id (nodes g) =
          [''main'', ''topic_neural networks'', ''subtopic_topic_neural networks_gradient descent'',
           ''subtopic_topic_neural networks_backpropagation'', ''topic_optimization'',
           ''subtopic_topic_optimization_convexity'', ''topic_computer vision'', ''topic_datasets'',
           ''subtopic_topic_datasets_imagenet'', ''subtopic_topic_datasets_cifar'',
           ''subtopic_topic_datasets_mnist'', ''topic_evaluation'']"
      by (rule g(2) [unfolded ids])
  qed (rule a b c d)+
qed

section \<open>Weights\<close>

text \<open>
  Claim C6. In the graph of a well-formed tree the main node has weight 20, the node of
  every topic has weight importance * 2 and the node of every subtopic has its
  importance as weight: the categories, names and weights of the nodes, in order.
\<close>

theorem create_graph_data_node_weights:
  assumes "list_all valid_topic topics"
  shows "\<exists>g. create_graph_data str title topics rp = Inr (g, rp) \<and>
           map (\<lambda>n. (node_group n, node_name n, node_val n)) (nodes g) =
             (''main'', node_name (main_node title), PInt 20) #
             concat (map (\<lambda>t. (''topic'', PStr (name_of t), PInt (importance_of t * 2)) #
                              map (\<lambda>s. (''subtopic'', PStr (name_of s), PInt (importance_of s)))
                                (subtopics_of t)) topics)"
proof -
  let ?g = "\<lparr>nodes = main_node title # concat (map topic_nodes topics),
             links = concat (map topic_links topics)\<rparr>"
  have run: "create_graph_data str title topics rp = Inr (?g, rp)"
    using assms by (rule create_graph_data_valid)
  have "map (\<lambda>n. (node_group n, node_name n, node_val n)) (concat (map topic_nodes ts)) =
      concat (map (\<lambda>t. (''topic'', PStr (name_of t), PInt (importance_of t * 2)) #
                       map (\<lambda>s. (''subtopic'', PStr (name_of s), PInt (importance_of s)))
                         (subtopics_of t)) ts)" for ts
    by (induction ts) (simp_all add: topic_nodes_def comp_def)
  then have "map (\<lambda>n. (node_group n, node_name n, node_val n)) (nodes ?g) =
      (''main'', node_name (main_node title), PInt 20) #
      concat (map (\<lambda>t. (''topic'', PStr (name_of t), PInt (importance_of t * 2)) #
                       map (\<lambda>s. (''subtopic'', PStr (name_of s), PInt (importance_of s)))
                         (subtopics_of t)) topics)"
    by (simp add: main_node_def)
  with run show ?thesis by (intro exI conjI)
qed

theorem create_graph_data_node_weights_witness:
  "list_all valid_topic example_topics \<and>
   (\<exists>g. create_graph_data str_unused ''paper.pdf'' example_topics ([] :: paper list) = Inr (g, []) \<and>
        map (\<lambda>n. (node_group n, node_val n)) (nodes g) =
          [(''main'', PInt 20), (''topic'', PInt 18), (''subtopic'', PInt 6), (''subtopic'', PInt 5),
           (''topic'', PInt 16), (''subtopic'', PInt 4), (''topic'', PInt 14), (''topic'', PInt 6),
           (''subtopic'', PInt 3), (''subtopic'', PInt 2), (''subtopic'', PInt 1), (''topic'', PInt 4)])"
proof -
  have a: "list_all valid_topic example_topics"
    by (simp add: example_topics_def)
  from create_graph_data_node_weights [OF a, of str_unused "''paper.pdf''" "[] :: paper list"]
  obtain g where g: "create_graph_data str_unused ''paper.pdf'' example_topics ([] :: paper list) = Inr (g, [])"
    and w: "map (\<lambda>n. (node_group n, node_name n, node_val n)) (nodes g) =
       (''main'', node_name (main_node ''paper.pdf''), PInt 20) #
       concat (map (\<lambda>t. (''topic'', PStr (name_of t), PInt (importance_of t * 2)) #
                        map (\<lambda>s. (''subtopic'', PStr (name_of s), PInt (importance_of s)))
                          (subtopics_of t)) example_topics)"
    by (elim exE conjE) (rule that)
  have "map (\<lambda>n. (node_group n, node_val n)) (nodes g) =
      map (\<lambda>x. (fst x, snd (snd x))) (map (\<lambda>n. (node_group n, node_name n, node_val n)) (nodes g))"
    by (simp add: comp_def)
  also have "\<dots> = [(''main'', PInt 20), (''topic'', PInt 18), (''subtopic'', PInt 6), (''subtopic'', PInt 5),
           (''topic'', PInt 16), (''subtopic'', PInt 4), (''topic'', PInt 14), (''topic'', PInt 6),
           (''subtopic'', PInt 3), (''subtopic'', PInt 2), (''subtopic'', PInt 1), (''topic'', PInt 4)]"
    unfolding w by (simp add: example_topics_def)
  finally have w': "map (\<lambda>n. (node_group n, node_val n)) (nodes g) =
          [(''main'', PInt 20), (''topic'', PInt 18), (''subtopic'', PInt 6), (''subtopic'', PInt 5),
           (''topic'', PInt 16), (''subtopic'', PInt 4), (''topic'', PInt 14), (''topic'', PInt 6),
           (''subtopic'', PInt 3), (''subtopic'', PInt 2), (''subtopic'', PInt 1), (''topic'', PInt 4)]" .
  from a g w' show ?thesis by (intro exI conjI)
qed

text \<open>
  Claim C7. In the graph of a well-formed tree the edges are, in order, one per topic
  and subtopic: each edge ends at the node of that topic or subtopic (the node after
  the main node at the same position) and carries its importance as weight.
\<close>

theorem create_graph_data_edge_weights:
  assumes "list_all valid_topic topics"
  shows "\<exists>g. create_graph_data str title topics rp = Inr (g, rp) \<and>
           map link_target (links g) = map node_id (tl (nodes g)) \<and>
           map (\<lambda>l. (link_target l, link_value l)) (links g) =
             concat (map (\<lambda>t. (topic_id t, PInt (importance_of t)) #
                              map (\<lambda>s. (subtopic_id t s, PInt (importance_of s)))
                                (subtopics_of t)) topics)"
proof -
  let ?g = "\<lparr>nodes = main_node title # concat (map topic_nodes topics),
             links = concat (map topic_links topics)\<rparr>"
  have run: "create_graph_data str title topics rp = Inr (?g, rp)"
    using assms by (rule create_graph_data_valid)
  have "map link_target (concat (map topic_links ts)) = map node_id (concat (map topic_nodes ts))" for ts
    by (induction ts) (simp_all add: topic_links_def topic_nodes_def comp_def)
  then have targets: "map link_target (links ?g) = map node_id (tl (nodes ?g))"
    by simp
  have "map (\<lambda>l. (link_target l, link_value l)) (concat (map topic_links ts)) =
      concat (map (\<lambda>t. (topic_id t, PInt (importance_of t)) #
                       map (\<lambda>s. (subtopic_id t s, PInt (importance_of s))) (subtopics_of t)) ts)" for ts
    by (induction ts) (simp_all add: topic_links_def comp_def)
  then have weights: "map (\<lambda>l. (link_target l, link_value l)) (links ?g) =
      concat (map (\<lambda>t. (topic_id t, PInt (importance_of t)) #
                       map (\<lambda>s. (subtopic_id t s, PInt (importance_of s))) (subtopics_of t)) topics)"
    by simp
  from run targets weights show ?thesis by (intro exI conjI)
qed

theorem create_graph_data_edge_weights_witness:
  "list_all valid_topic example_topics \<and>
   (\<exists>g. create_graph_data str_unused ''paper.pdf'' example_topics ([] :: paper list) = Inr (g, []) \<and>
        map link_target (links g) = map node_id (tl (nodes g)) \<and>
        map link_value (links g) =
          [PInt 9, PInt 6, PInt 5, PInt 8, PInt 4, PInt 7, PInt 3, PInt 3, PInt 2, PInt 1, PInt 2])"
proof -
  have a: "list_all valid_topic example_topics"
    by (simp add: example_topics_def)
  from create_graph_data_edge_weights [OF a, of str_unused "''paper.pdf''" "[] :: paper list"]
  obtain g where g: "create_graph_data str_unused ''paper.pdf'' example_topics ([] :: paper list) = Inr (g, [])"
    and t: "map link_target (links g) = map node_id (tl (nodes g))"
    and w: "map (\<lambda>l. (link_target l, link_value l)) (links g) =
       concat (map (\<lambda>t. (topic_id t, PInt (importance_of t)) #
                        map (\<lambda>s. (subtopic_id t s, PInt (importance_of s)))
                          (subtopics_of t)) example_topics)"
    by (elim exE conjE) (rule that)
  have "map link_value (links g) = map snd (map (\<lambda>l. (link_target l, link_value l)) (links g))"
    by (simp add: comp_def)
  also have "\<dots> = [PInt 9, PInt 6, PInt 5, PInt 8, PInt 4, PInt 7, PInt 3, PInt 3, PInt 2, PInt 1, PInt 2]"
    unfolding w by (simp add: example_topics_def)
  finally have w': "map link_value (links g) =
      [PInt 9, PInt 6, PInt 5, PInt 8, PInt 4, PInt 7, PInt 3, PInt 3, PInt 2, PInt 1, PInt 2]" .
  from a g t w' show ?thesis by (intro exI conjI)
qed

section \<open>The display name of the main node\<close>

text \<open>The loops only append: the nodes they start from stay in front.\<close>

lemma subtopic_loop_prefix:
  "subtopic_loop str mid subs ns ls = Inr (ns', ls') \<Longrightarrow> \<exists>xs. ns' = ns @ xs"
proof (induction subs arbitrary: ns ls)
  case Nil
  then show ?case by simp
next
  case (Cons s subs)
  from Cons.prems obtain n l where "subtopic_loop str mid subs (ns @ [n]) (ls @ [l]) = Inr (ns', ls')"
    by (auto simp add: Let_def split: sum.splits)
  from Cons.IH [OF this] show ?case by auto
qed

lemma topic_loop_prefix:
  "topic_loop str ts ns ls = Inr (ns', ls') \<Longrightarrow> \<exists>xs. ns' = ns @ xs"
proof (induction ts arbitrary: ns ls)
  case Nil
  then show ?case by simp
next
  case (Cons t ts)
  from Cons.prems obtain n l items mid ns1 ls1 where
    inner: "subtopic_loop str mid items (ns @ [n]) (ls @ [l]) = Inr (ns1, ls1)"
    and outer: "topic_loop str ts ns1 ls1 = Inr (ns', ls')"
    by (auto simp add: Let_def split: sum.splits prod.splits)
  from subtopic_loop_prefix [OF inner] obtain xs where "ns1 = (ns @ [n]) @ xs" by blast
  moreover from Cons.IH [OF outer] obtain ys where "ns' = ns1 @ ys" by blast
  ultimately show ?case by simp
qed

text \<open>
  Claim C9. The main node's display name is the paper title itself when the title has
  at most 50 characters, and its first 50 characters followed by \<^verbatim>\<open>...\<close> when it is
  longer: this holds of every graph \<open>create_graph_data\<close> returns, and it returns one
  for every well-formed tree.
\<close>

theorem create_graph_data_title:
  "(list_all valid_topic topics \<longrightarrow> (\<exists>g. create_graph_data str title topics rp = Inr (g, rp))) \<and>
   (\<forall>g r. create_graph_data str title topics rp = Inr (g, r) \<longrightarrow>
      (\<exists>rest. nodes g =
         \<lparr>node_id = ''main'',
           node_name = PStr (if length title \<le> 50 then title else take 50 title @ ''...''),
           node_val = PInt 20, node_group = ''main''\<rparr> # rest))"
proof (intro conjI allI impI)
  assume "list_all valid_topic topics"
  then show "\<exists>g. create_graph_data str title topics rp = Inr (g, rp)"
    by (simp add: create_graph_data_valid)
next
  fix g r
  assume run: "create_graph_data str title topics rp = Inr (g, r)"
  let ?main = "\<lparr>node_id = ''main'',
      node_name = PStr (if length title \<le> 50 then title else take 50 title @ ''...''),
      node_val = PInt 20, node_group = ''main''\<rparr>"
  have short: "(if length title > 50 then take 50 title @ ''...'' else title) =
      (if length title \<le> 50 then title else take 50 title @ ''...'')"
    by simp
  from run obtain ns ls where loop: "topic_loop str topics [?main] [] = Inr (ns, ls)"
    and g: "g = \<lparr>nodes = ns, links = ls\<rparr>"
    unfolding create_graph_data_def Let_def short
    by (auto split: sum.splits prod.splits)
  from topic_loop_prefix [OF loop] obtain xs where "ns = [?main] @ xs" by blast
  with g show "\<exists>rest. nodes g = ?main # rest" by simp
qed

theorem create_graph_data_title_witness:
  "list_all valid_topic example_topics \<and>
   (\<exists>g rest. create_graph_data str_unused ''paper.pdf'' example_topics ([] :: paper list) = Inr (g, []) \<and>
      nodes g = \<lparr>node_id = ''main'', node_name = PStr ''paper.pdf'', node_val = PInt 20,
                  node_group = ''main''\<rparr> # rest) \<and>
   (\<exists>g rest. create_graph_data str_unused long_title example_topics ([] :: paper list) = Inr (g, []) \<and>
      nodes g = \<lparr>node_id = ''main'', node_name = PStr (replicate 50 CHR ''a'' @ ''...''),
                  node_val = PInt 20, node_group = ''main''\<rparr> # rest)"
proof -
  have a: "list_all valid_topic example_topics"
    by (simp add: example_topics_def)
  note short = create_graph_data_title [of example_topics str_unused "''paper.pdf''" "[] :: paper list"]
  note long = create_graph_data_title [of example_topics str_unused long_title "[] :: paper list"]
  have "\<exists>g. create_graph_data str_unused ''paper.pdf'' example_topics ([] :: paper list) = Inr (g, [])"
    using short [THEN conjunct1] a by (rule mp)
  then obtain g1 where
    g1: "create_graph_data str_unused ''paper.pdf'' example_topics ([] :: paper list) = Inr (g1, [])" ..
  have "\<exists>g. create_graph_data str_unused long_title example_topics ([] :: paper list) = Inr (g, [])"
    using long [THEN conjunct1] a by (rule mp)
  then obtain g2 where
    g2: "create_graph_data str_unused long_title example_topics ([] :: paper list) = Inr (g2, [])" ..
  have "\<exists>rest. nodes g1 =
      \<lparr>node_id = ''main'',
        node_name = PStr (if length ''paper.pdf'' \<le> 50 then ''paper.pdf'' else take 50 ''paper.pdf'' @ ''...''),
        node_val = PInt 20, node_group = ''main''\<rparr> # rest"
    using short [THEN conjunct2, THEN spec, THEN spec] g1 by (rule mp)
  then obtain rest1 where r1: "nodes g1 =
      \<lparr>node_id = ''main'',
        node_name = PStr (if length ''paper.pdf'' \<le> 50 then ''paper.pdf'' else take 50 ''paper.pdf'' @ ''...''),
        node_val = PInt 20, node_group = ''main''\<rparr> # rest1" ..
  have "\<exists>rest. nodes g2 =
      \<lparr>node_id = ''main'',
        node_name = PStr (if length long_title \<le> 50 then long_title else take 50 long_title @ ''...''),
        node_val = PInt 20, node_group = ''main''\<rparr> # rest"
    using long [THEN conjunct2, THEN spec, THEN spec] g2 by (rule mp)
  then obtain rest2 where r2: "nodes g2 =
      \<lparr>node_id = ''main'',
        node_name = PStr (if length long_title \<le> 50 then long_title else take 50 long_title @ ''...''),
        node_val = PInt 20, node_group = ''main''\<rparr> # rest2" ..
  have n1: "(if length ''paper.pdf'' \<le> 50 then ''paper.pdf'' else take 50 ''paper.pdf'' @ ''...'') = ''paper.pdf''"
    by simp
  have n2: "(if length long_title \<le> 50 then long_title else take 50 long_title @ ''...'') =
      replicate 50 CHR ''a'' @ ''...''"
    by (simp add: long_title_def)
  from a g1 g2 r1 [unfolded n1] r2 [unfolded n2] show ?thesis
    by (intro conjI exI)
qed

section \<open>Related-work search\<close>

text \<open>
  The loops that append to \<^verbatim>\<open>related_papers\<close> compute the concatenation of what the
  queries contribute.
\<close>

lemma entries_loop_parsed:
  "entries_loop entries q related = related @ parsed_entries entries q"
  by (induction entries arbitrary: related)
     (simp_all add: parsed_entries_def split: sum.splits)

lemma search_topic_query:
  "search_topic env i (PStr q) related = related @ query_entries env i q"
  by (simp add: search_topic_def query_entries_def entries_loop_parsed split: sum.splits)

lemma search_loop_queries:
  "search_loop env i (map PStr qs) related =
     related @ concat (map (\<lambda>(j, q). query_entries env j q) (enumerate i qs))"
  by (induction qs arbitrary: i related) (simp_all add: search_topic_query)

lemma topic_names_strings:
  "list_all (\<lambda>x. subscript x ''topic'' = Inr (PStr (name_of x))) xs \<Longrightarrow>
   topic_names xs = Inr (map PStr (map name_of xs))"
  by (induction xs) simp_all

lemma topic_names_valid_subtopics:
  "list_all valid_subtopic xs \<Longrightarrow> topic_names xs = Inr (map PStr (map name_of xs))"
  by (rule topic_names_strings) (simp add: list_all_iff valid_subtopic_fields(1))

lemma topic_names_valid_topics:
  "list_all valid_topic xs \<Longrightarrow> topic_names xs = Inr (map PStr (map name_of xs))"
  by (rule topic_names_strings) (simp add: list_all_iff valid_topic_fields(1))

lemma extend_subtopics_valid:
  "list_all valid_topic ts \<Longrightarrow>
   extend_subtopics ts acc =
     Inr (acc @ map PStr (concat (map (\<lambda>t. map name_of (subtopics_of t)) ts)))"
proof (induction ts arbitrary: acc)
  case Nil
  show ?case by simp
next
  case (Cons t ts)
  from Cons.prems have t: "valid_topic t" and rest: "list_all valid_topic ts"
    by simp_all
  from valid_topic_fields(3) [OF t] obtain v where
    v: "dict_get t ''subtopics'' (PList []) = Inr v" "py_iter v = Inr (subtopics_of t)"
    by blast
  show ?case
    by (simp add: v topic_names_valid_subtopics [OF valid_topic_fields(4) [OF t]]
        Cons.IH [OF rest])
qed

lemma all_topics_valid:
  "list_all valid_topic topics \<Longrightarrow> all_topics topics = Inr (map PStr (flatten_queries topics))"
  by (simp add: all_topics_def topic_names_valid_topics extend_subtopics_valid flatten_queries_def)

text \<open>
  Claim C1. For every sequence of well-formed topics \<open>find_related_papers\<close> returns
  (it never raises) the concatenation, over the queries in flattening order (all topic
  names, then all subtopic names, nothing removed), of what each query contributes:
  its parsed entries in the order of the response, and nothing when the provider call
  fails (timeout or transport error, status other than 200, envelope that does not
  parse), whatever the other queries do.
\<close>

theorem find_related_papers_concat:
  assumes "list_all valid_topic topics"
  shows "find_related_papers env topics =
           Inr (concat (map (\<lambda>(i, q). query_entries env i q)
                  (enumerate 0 (flatten_queries topics))))"
  using assms
  by (simp add: find_related_papers_def all_topics_valid search_loop_queries)

lemma example_query_entries:
  "query_entries example_provider i q = (if i = 1 then [] else [example_paper q])"
  by (simp add: query_entries_def example_provider_def example_feed_def partial_entry_def
      findall_descendants_def parsed_entries_def parse_entry_def find_child_def findall_children_def
      atom_def py_strip_def is_space_def example_paper_def query_url_def)

theorem find_related_papers_concat_witness:
  "list_all valid_topic three_queries \<and>
   find_related_papers example_provider three_queries = Inr [example_paper ''a'', example_paper ''c'']"
proof -
  have a: "list_all valid_topic three_queries"
    by (simp add: three_queries_def)
  have q: "flatten_queries three_queries = [''a'', ''b'', ''c'']"
    by (simp add: flatten_queries_def three_queries_def)
  have "find_related_papers example_provider three_queries =
      Inr (concat (map (\<lambda>(i, q). query_entries example_provider i q)
             (enumerate 0 (flatten_queries three_queries))))"
    using a by (rule find_related_papers_concat)
  also have "\<dots> = Inr [example_paper ''a'', example_paper ''c'']"
    unfolding q by (simp add: example_query_entries)
  finally show ?thesis using a by (intro conjI)
qed

section \<open>Entries with missing fields\<close>

lemma py_split_nonempty: "py_split c s \<noteq> []"
  by (induction s) (auto split: list.splits)

lemma last_item_nonempty: "xs \<noteq> [] \<Longrightarrow> \<exists>v. last_item xs = Inr v"
  by (induction xs rule: last_item.induct) auto

lemma first_item_nonempty: "xs \<noteq> [] \<Longrightarrow> \<exists>v. first_item xs = Inr v"
  by (cases xs) auto

lemma field_or_present:
  assumes "has_text eo" and "\<And>t. \<exists>v. f t = Inr v"
  shows "\<exists>v. field_or eo f sentinel = Inr v \<and> (eo = None \<longrightarrow> v = sentinel)"
proof (cases eo)
  case None
  then show ?thesis by simp
next
  case (Some el)
  with assms(1) obtain t where "elem_text el = Some t"
    by (auto simp add: has_text_def)
  with Some assms(2) [of t] show ?thesis by auto
qed

lemma authors_loop_present:
  "list_all (\<lambda>author. has_text (find_child (atom ''name'') author)) as \<Longrightarrow>
   \<exists>v. authors_loop as acc = Inr v"
  by (induction as arbitrary: acc) (auto simp add: has_text_def split: option.splits)

text \<open>
  Claim C8. A provider entry none of whose elements is malformed parses to a record, and
  the loop over the entries appends that record: a missing id, title, summary or
  published element neither raises nor drops the entry, and the record then holds the
  sentinel \<^verbatim>\<open>id not found\<close>, \<^verbatim>\<open>title not found\<close>, \<^verbatim>\<open>no abstract available\<close> or
  \<^verbatim>\<open>date not available\<close> in its place.
\<close>

theorem parse_entry_sentinels:
  assumes "entry_texts_present entry"
  shows "\<exists>p. parse_entry entry q = Inr p \<and>
           entries_loop (entry # rest) q related = entries_loop rest q (related @ [p]) \<and>
           paper_topic p = q \<and>
           (find_child (atom ''id'') entry = None \<longrightarrow> paper_id p = ''id not found'') \<and>
           (find_child (atom ''title'') entry = None \<longrightarrow> paper_title p = ''title not found'') \<and>
           (find_child (atom ''summary'') entry = None \<longrightarrow> paper_summary p = ''no abstract available'') \<and>
           (find_child (atom ''published'') entry = None \<longrightarrow> paper_published p = ''date not available'')"
proof -
  from assms have present:
    "has_text (find_child (atom ''id'') entry)"
    "has_text (find_child (atom ''title'') entry)"
    "has_text (find_child (atom ''summary'') entry)"
    "has_text (find_child (atom ''published'') entry)"
    "list_all (\<lambda>author. has_text (find_child (atom ''name'') author))
       (findall_children (atom ''author'') entry)"
    by (simp_all add: entry_texts_present_def)
  have last_ok: "\<exists>v. last_item (py_split CHR ''/'' t) = Inr v" for t
    by (rule last_item_nonempty [OF py_split_nonempty])
  have first_ok: "\<exists>v. first_item (py_split CHR ''T'' t) = Inr v" for t
    by (rule first_item_nonempty [OF py_split_nonempty])
  have strip_ok: "\<exists>v. Inr (py_strip t) = (Inr v :: py_error + string)" for t
    by simp
  from field_or_present [where f = "\<lambda>t. last_item (py_split CHR ''/'' t)" and sentinel = "''id not found''",
      OF present(1) last_ok]
  obtain pid where pid:
    "field_or (find_child (atom ''id'') entry) (\<lambda>t. last_item (py_split CHR ''/'' t)) ''id not found'' = Inr pid"
    "find_child (atom ''id'') entry = None \<longrightarrow> pid = ''id not found''"
    by (elim exE conjE) (rule that)
  from field_or_present [where f = "\<lambda>t. Inr (py_strip t)" and sentinel = "''title not found''",
      OF present(2) strip_ok]
  obtain ptitle where ptitle:
    "field_or (find_child (atom ''title'') entry) (\<lambda>t. Inr (py_strip t)) ''title not found'' = Inr ptitle"
    "find_child (atom ''title'') entry = None \<longrightarrow> ptitle = ''title not found''"
    by (elim exE conjE) (rule that)
  from field_or_present [where f = "\<lambda>t. Inr (py_strip t)" and sentinel = "''no abstract available''",
      OF present(3) strip_ok]
  obtain psummary where psummary:
    "field_or (find_child (atom ''summary'') entry) (\<lambda>t. Inr (py_strip t)) ''no abstract available'' = Inr psummary"
    "find_child (atom ''summary'') entry = None \<longrightarrow> psummary = ''no abstract available''"
    by (elim exE conjE) (rule that)
  from field_or_present [where f = "\<lambda>t. first_item (py_split CHR ''T'' t)" and sentinel = "''date not available''",
      OF present(4) first_ok]
  obtain ppublished where ppublished:
    "field_or (find_child (atom ''published'') entry) (\<lambda>t. first_item (py_split CHR ''T'' t)) ''date not available'' = Inr ppublished"
    "find_child (atom ''published'') entry = None \<longrightarrow> ppublished = ''date not available''"
    by (elim exE conjE) (rule that)
  obtain pauthors where pauthors:
    "authors_loop (findall_children (atom ''author'') entry) [] = Inr pauthors"
    using authors_loop_present [OF present(5), of "[]"] ..
  let ?p = "\<lparr>paper_id = pid, paper_title = ptitle, paper_summary = psummary,
      paper_published = ppublished, paper_authors = pauthors, paper_topic = q\<rparr>"
  have parse: "parse_entry entry q = Inr ?p"
    by (simp add: parse_entry_def pid(1) ptitle(1) psummary(1) ppublished(1) pauthors)
  have loop: "entries_loop (entry # rest) q related = entries_loop rest q (related @ [?p])"
    by (simp add: parse)
  show ?thesis
  proof (intro exI conjI)
    show "parse_entry entry q = Inr ?p" by (rule parse)
    show "entries_loop (entry # rest) q related = entries_loop rest q (related @ [?p])" by (rule loop)
    show "paper_topic ?p = q" by simp
    show "find_child (atom ''id'') entry = None \<longrightarrow> paper_id ?p = ''id not found''"
      using pid(2) by simp
    show "find_child (atom ''title'') entry = None \<longrightarrow> paper_title ?p = ''title not found''"
      using ptitle(2) by simp
    show "find_child (atom ''summary'') entry = None \<longrightarrow> paper_summary ?p = ''no abstract available''"
      using psummary(2) by simp
    show "find_child (atom ''published'') entry = None \<longrightarrow> paper_published ?p = ''date not available''"
      using ppublished(2) by simp
  qed
qed

theorem parse_entry_sentinels_witness:
  "entry_texts_present partial_entry \<and>
   find_child (atom ''title'') partial_entry = None \<and>
   find_child (atom ''summary'') partial_entry = None \<and>
   (\<exists>p. parse_entry partial_entry ''gradient descent'' = Inr p \<and>
        paper_title p = ''title not found'' \<and> paper_summary p = ''no abstract available'' \<and>
        paper_topic p = ''gradient descent'')"
proof -
  have a: "entry_texts_present partial_entry"
    by (simp add: entry_texts_present_def partial_entry_def has_text_def find_child_def
        findall_children_def atom_def)
  have t: "find_child (atom ''title'') partial_entry = None"
    by (simp add: partial_entry_def find_child_def atom_def)
  have s: "find_child (atom ''summary'') partial_entry = None"
    by (simp add: partial_entry_def find_child_def atom_def)
  from parse_entry_sentinels [OF a, of "''gradient descent''" "[]" "[]"]
  obtain p where p: "parse_entry partial_entry ''gradient descent'' = Inr p"
    and q: "paper_topic p = ''gradient descent''"
    and pt: "find_child (atom ''title'') partial_entry = None \<longrightarrow> paper_title p = ''title not found''"
    and ps: "find_child (atom ''summary'') partial_entry = None \<longrightarrow> paper_summary p = ''no abstract available''"
    by (elim exE conjE) (rule that)
  from pt t have pt': "paper_title p = ''title not found''" by (rule mp)
  from ps s have ps': "paper_summary p = ''no abstract available''" by (rule mp)
  from a t s p pt' ps' q show ?thesis by (intro conjI exI)
qed

section \<open>Topics without the key \<^verbatim>\<open>subtopics\<close>\<close>

text \<open>
  Both functions read a topic through \<^verbatim>\<open>topic["topic"]\<close>, \<^verbatim>\<open>topic["importance"]\<close> and
  \<^verbatim>\<open>topic.get('subtopics', [])\<close> only, and these agree on a record without the key and
  on the same record with an empty list under it.
\<close>

lemma with_empty_subscript:
  "k \<noteq> ''subtopics'' \<Longrightarrow> subscript (with_empty_subtopics d) k = subscript (PDict d) k"
  by (simp add: with_empty_subtopics_def map_add_def split: option.splits)

lemma with_empty_get:
  "map_of d ''subtopics'' = None \<Longrightarrow>
   dict_get (with_empty_subtopics d) ''subtopics'' (PList []) = Inr (PList []) \<and>
   dict_get (PDict d) ''subtopics'' (PList []) = Inr (PList [])"
  by (simp add: with_empty_subtopics_def map_add_def)

lemma topic_loop_step_absent:
  assumes "map_of d ''subtopics'' = None"
  shows "topic_loop str (with_empty_subtopics d # rest) ns ls = topic_loop str (PDict d # rest) ns ls"
proof -
  have t: "subscript (with_empty_subtopics d) ''topic'' = subscript (PDict d) ''topic''"
    by (rule with_empty_subscript) simp
  have i: "subscript (with_empty_subtopics d) ''importance'' = subscript (PDict d) ''importance''"
    by (rule with_empty_subscript) simp
  note g = with_empty_get [OF assms]
  show ?thesis
    unfolding topic_loop.simps t i g [THEN conjunct1] g [THEN conjunct2] ..
qed

lemma topic_loop_context:
  assumes "map_of d ''subtopics'' = None"
  shows "topic_loop str (before @ with_empty_subtopics d # after) ns ls =
         topic_loop str (before @ PDict d # after) ns ls"
proof (induction before arbitrary: ns ls)
  case Nil
  show ?case by (simp only: append_Nil topic_loop_step_absent [OF assms])
next
  case (Cons b before)
  show ?case
    by (simp add: Cons.IH Let_def split: sum.splits prod.splits)
qed

lemma topic_names_context:
  "topic_names (before @ with_empty_subtopics d # after) = topic_names (before @ PDict d # after)"
proof (induction before)
  case Nil
  have "subscript (with_empty_subtopics d) ''topic'' = subscript (PDict d) ''topic''"
    by (rule with_empty_subscript) simp
  then show ?case by (simp only: append_Nil topic_names.simps)
next
  case (Cons b before)
  then show ?case by (simp split: sum.splits)
qed

lemma extend_subtopics_context:
  assumes "map_of d ''subtopics'' = None"
  shows "extend_subtopics (before @ with_empty_subtopics d # after) acc =
         extend_subtopics (before @ PDict d # after) acc"
proof (induction before arbitrary: acc)
  case Nil
  note g = with_empty_get [OF assms]
  show ?case
    by (simp only: append_Nil extend_subtopics.simps g [THEN conjunct1] g [THEN conjunct2])
next
  case (Cons b before)
  show ?case
    by (simp add: Cons.IH split: sum.splits)
qed

lemma all_topics_context:
  assumes "map_of d ''subtopics'' = None"
  shows "all_topics (before @ with_empty_subtopics d # after) = all_topics (before @ PDict d # after)"
  by (simp only: all_topics_def topic_names_context extend_subtopics_context [OF assms])

text \<open>
  Claim C10. For a topic record with a name and an importance but no key \<^verbatim>\<open>subtopics\<close>,
  the query list holds exactly one query (its name) and \<open>find_related_papers\<close> returns
  what that one query contributes; \<open>create_graph_data\<close> returns the main node, one
  topic node and one edge from the main node to it; and anywhere in a topic list both
  functions give the same result for this record as for the record with an empty
  subtopic sequence.
\<close>

theorem subtopics_key_optional:
  assumes "map_of d ''topic'' = Some (PStr n)"
    and "map_of d ''importance'' = Some (PInt i)"
    and "map_of d ''subtopics'' = None"
  shows "all_topics [PDict d] = Inr [PStr n] \<and>
         find_related_papers env [PDict d] = Inr (query_entries env 0 n) \<and>
         create_graph_data str title [PDict d] rp =
           Inr (\<lparr>nodes = [main_node title,
                          \<lparr>node_id = ''topic_'' @ n, node_name = PStr n, node_val = PInt (i * 2),
                            node_group = ''topic''\<rparr>],
                 links = [\<lparr>link_source = ''main'', link_target = ''topic_'' @ n,
                            link_value = PInt i\<rparr>]\<rparr>, rp) \<and>
         find_related_papers env (before @ PDict d # after) =
           find_related_papers env (before @ with_empty_subtopics d # after) \<and>
         create_graph_data str title (before @ PDict d # after) rp =
           create_graph_data str title (before @ with_empty_subtopics d # after) rp"
proof (intro conjI)
  from assms have valid: "list_all valid_topic [PDict d]"
    by simp
  have flat: "flatten_queries [PDict d] = [n]"
    by (simp add: flatten_queries_def assms)
  show "all_topics [PDict d] = Inr [PStr n]"
    by (simp add: all_topics_valid [OF valid] flat)
  have "find_related_papers env [PDict d] =
      Inr (concat (map (\<lambda>(i, q). query_entries env i q) (enumerate 0 (flatten_queries [PDict d]))))"
    by (simp add: find_related_papers_def all_topics_valid [OF valid] search_loop_queries)
  then show "find_related_papers env [PDict d] = Inr (query_entries env 0 n)"
    by (simp add: flat)
  show "create_graph_data str title [PDict d] rp =
      Inr (\<lparr>nodes = [main_node title,
                     \<lparr>node_id = ''topic_'' @ n, node_name = PStr n, node_val = PInt (i * 2),
                       node_group = ''topic''\<rparr>],
            links = [\<lparr>link_source = ''main'', link_target = ''topic_'' @ n,
                       link_value = PInt i\<rparr>]\<rparr>, rp)"
    by (simp add: create_graph_data_valid [OF valid] topic_nodes_def topic_links_def
        topic_id_def assms)
  show "find_related_papers env (before @ PDict d # after) =
      find_related_papers env (before @ with_empty_subtopics d # after)"
    by (simp only: find_related_papers_def all_topics_context [OF assms(3)])
  show "create_graph_data str title (before @ PDict d # after) rp =
      create_graph_data str title (before @ with_empty_subtopics d # after) rp"
    by (simp only: create_graph_data_def topic_loop_context [OF assms(3)])
qed

theorem subtopics_key_optional_witness:
  "map_of bare_topic ''topic'' = Some (PStr ''computer vision'') \<and>
   map_of bare_topic ''importance'' = Some (PInt 7) \<and>
   map_of bare_topic ''subtopics'' = None \<and>
   all_topics [PDict bare_topic] = Inr [PStr ''computer vision''] \<and>
   find_related_papers example_provider [PDict bare_topic] =
     Inr (query_entries example_provider 0 ''computer vision'') \<and>
   create_graph_data str_unused ''paper.pdf'' [PDict bare_topic] ([] :: paper list) =
     Inr (\<lparr>nodes = [main_node ''paper.pdf'',
                    \<lparr>node_id = ''topic_'' @ ''computer vision'', node_name = PStr ''computer vision'',
                      node_val = PInt (7 * 2), node_group = ''topic''\<rparr>],
           links = [\<lparr>link_source = ''main'', link_target = ''topic_'' @ ''computer vision'',
                      link_value = PInt 7\<rparr>]\<rparr>, []) \<and>
   find_related_papers example_provider (three_queries @ PDict bare_topic # example_topics) =
     find_related_papers example_provider
       (three_queries @ with_empty_subtopics bare_topic # example_topics) \<and>
   create_graph_data str_unused ''paper.pdf'' (three_queries @ PDict bare_topic # example_topics)
       ([] :: paper list) =
     create_graph_data str_unused ''paper.pdf''
       (three_queries @ with_empty_subtopics bare_topic # example_topics) []"
proof -
  have a: "map_of bare_topic ''topic'' = Some (PStr ''computer vision'')"
    by (simp add: bare_topic_def)
  have b: "map_of bare_topic ''importance'' = Some (PInt 7)"
    by (simp add: bare_topic_def)
  have c: "map_of bare_topic ''subtopics'' = None"
    by (simp add: bare_topic_def)
  show ?thesis
    by (rule conjI [OF a conjI [OF b conjI [OF c subtopics_key_optional [OF a b c]]]])
qed

section \<open>Topic extraction\<close>

text \<open>
  Claim C5. \<open>extract_topics\<close> hands the oracle's reply, stripped of surrounding
  whitespace, to \<^verbatim>\<open>json.loads\<close>. When that raises (the reply is not JSON), the
  exception leaves \<open>extract_topics\<close>; when it returns a value that is not a list,
  \<open>extract_topics\<close> raises \<^verbatim>\<open>ValueError\<close>; a topic list is returned only when the parsed
  value is that list.
\<close>

theorem extract_topics_rejects:
  assumes "chat_completion env (take 4000 paper_text) = Inr (Some reply)"
  shows "(\<forall>e. json_loads env (py_strip reply) = Inl e \<longrightarrow> extract_topics env paper_text = Inl e) \<and>
         (\<forall>v. json_loads env (py_strip reply) = Inr v \<and> (\<forall>ts. v \<noteq> PList ts) \<longrightarrow>
              extract_topics env paper_text =
                Inl (ValueError ''openai did not return a list of topics'')) \<and>
         (\<forall>ts. extract_topics env paper_text = Inr ts \<longleftrightarrow>
               json_loads env (py_strip reply) = Inr (PList ts))"
proof (intro conjI allI impI)
  fix e
  assume "json_loads env (py_strip reply) = Inl e"
  with assms show "extract_topics env paper_text = Inl e"
    by (simp add: extract_topics_def)
next
  fix v
  assume "json_loads env (py_strip reply) = Inr v \<and> (\<forall>ts. v \<noteq> PList ts)"
  with assms show "extract_topics env paper_text =
      Inl (ValueError ''openai did not return a list of topics'')"
    by (cases v) (simp_all add: extract_topics_def)
next
  fix ts
  from assms show "extract_topics env paper_text = Inr ts \<longleftrightarrow>
      json_loads env (py_strip reply) = Inr (PList ts)"
    by (auto simp add: extract_topics_def split: sum.splits pyval.splits)
qed

theorem extract_topics_rejects_witness:
  "chat_completion (example_oracle ''not json'') (take 4000 ''Paper about neural networks.'') =
     Inr (Some ''not json'') \<and>
   extract_topics (example_oracle ''not json'') ''Paper about neural networks.'' =
     Inl (External ''JSONDecodeError'') \<and>
   chat_completion (example_oracle '' {} '') (take 4000 ''Paper about neural networks.'') =
     Inr (Some '' {} '') \<and>
   extract_topics (example_oracle '' {} '') ''Paper about neural networks.'' =
     Inl (ValueError ''openai did not return a list of topics'')"
proof -
  have a1: "chat_completion (example_oracle ''not json'') (take 4000 ''Paper about neural networks.'') =
      Inr (Some ''not json'')"
    by (simp add: example_oracle_def)
  have a2: "chat_completion (example_oracle '' {} '') (take 4000 ''Paper about neural networks.'') =
      Inr (Some '' {} '')"
    by (simp add: example_oracle_def)
  have l1: "json_loads (example_oracle ''not json'') (py_strip ''not json'') =
      Inl (External ''JSONDecodeError'')"
    by (simp add: example_oracle_def py_strip_def is_space_def)
  have l2: "json_loads (example_oracle '' {} '') (py_strip '' {} '') = Inr (PDict []) \<and>
      (\<forall>ts. PDict [] \<noteq> PList ts)"
    by (simp add: example_oracle_def py_strip_def is_space_def)
  have r1: "extract_topics (example_oracle ''not json'') ''Paper about neural networks.'' =
      Inl (External ''JSONDecodeError'')"
    using extract_topics_rejects [OF a1, THEN conjunct1, THEN spec] l1 by (rule mp)
  have r2: "extract_topics (example_oracle '' {} '') ''Paper about neural networks.'' =
      Inl (ValueError ''openai did not return a list of topics'')"
    using extract_topics_rejects [OF a2, THEN conjunct2, THEN conjunct1, THEN spec] l2 by (rule mp)
  from a1 r1 a2 r2 show ?thesis by (intro conjI)
qed

section \<open>The endpoint on an oversized upload\<close>

text \<open>
  The check of the file name stands before the \<^verbatim>\<open>try\<close> block: its \<^verbatim>\<open>HTTPException\<close>
  reaches the client with the status 400.
\<close>

lemma analyze_paper_wrong_type:
  "\<not> endswith (filename file) ''.pdf'' \<Longrightarrow>
   analyze_paper sv file = Inl (400, ''Only PDF files are accepted'')"
  by (simp add: analyze_paper_def)

text \<open>
  Claim C4 fails on the code. For a PDF upload of 15 MiB the size check raises
  \<^verbatim>\<open>HTTPException(status_code=400)\<close> inside the \<^verbatim>\<open>try\<close> block, the handler
  \<^verbatim>\<open>except Exception\<close> catches it, and the endpoint answers with the status 500 and
  the text of the caught exception as detail. No collaborator is called.
\<close>

theorem analyze_paper_oversized_upload:
  "analyze_paper sv \<lparr>filename = ''paper.pdf'', contents = replicate (15 * 1024 * 1024) 0\<rparr> =
     Inl (500, exc_str sv (HTTPException 400 ''File too large. Please upload a smaller PDF''))"
  by (simp add: analyze_paper_def analyze_body_def endswith_def)

end
